theory Spec2Isabelle
  imports Main "HOL-Library.Sublist" "HOL-Library.Word"
begin

section \<open>Python values used by \<^verbatim>\<open>pull_partition_images_ADB.py\<close>\<close>

text \<open>
  A Python \<^verbatim>\<open>str\<close> is a sequence of code points. The model covers the code points
  below 256 (type \<^typ>\<open>char\<close>), and the character classes below are Python's own on that
  range: \<^verbatim>\<open>str.isspace\<close>, \<^verbatim>\<open>str.isdigit\<close>, \<^verbatim>\<open>str.lower\<close>. The substring test
  \<^verbatim>\<open>a in b\<close> is \<^const>\<open>sublist\<close>. Console output is not modelled.
\<close>

datatype error = IndexError | ValueError | EOFError | SystemExit int

type_synonym byte = "8 word"

definition isspace_char :: "char \<Rightarrow> bool" where
  "isspace_char c \<longleftrightarrow> c \<in> set [CHR 0x09, CHR 0x0A, CHR 0x0B, CHR 0x0C, CHR 0x0D,
     CHR 0x1C, CHR 0x1D, CHR 0x1E, CHR 0x1F, CHR 0x20, CHR 0x85, CHR 0xA0]"

definition isdecimal_char :: "char \<Rightarrow> bool" where
  "isdecimal_char c \<longleftrightarrow> c \<in> set ''0123456789''"

definition isdigit_char :: "char \<Rightarrow> bool" where
  \<comment> \<open>the decimal digits and the superscripts two, three and one\<close>
  "isdigit_char c \<longleftrightarrow> isdecimal_char c \<or> c \<in> set [CHR 0xB2, CHR 0xB3, CHR 0xB9]"

definition lower_char :: "char \<Rightarrow> char" where
  "lower_char c =
     (let n = (of_char c :: nat)
      in if (0x41 \<le> n \<and> n \<le> 0x5A) \<or> (0xC0 \<le> n \<and> n \<le> 0xDE \<and> n \<noteq> 0xD7)
         then char_of (n + 0x20) else c)"

definition lower :: "string \<Rightarrow> string" where
  "lower s = map lower_char s"

definition strip :: "string \<Rightarrow> string" where
  "strip s = rev (dropWhile isspace_char (rev (dropWhile isspace_char s)))"

definition isdigit :: "string \<Rightarrow> bool" where
  "isdigit s \<longleftrightarrow> s \<noteq> [] \<and> list_all isdigit_char s"

text \<open>\<^verbatim>\<open>s.split(c)\<close> for a separator of one character: never the empty list.\<close>

fun split_on :: "char \<Rightarrow> string \<Rightarrow> string list" where
  "split_on c [] = [[]]"
| "split_on c (x # xs) =
     (if x = c then [] # split_on c xs
      else (case split_on c xs of [] \<Rightarrow> [[x]] | w # ws \<Rightarrow> (x # w) # ws))"

text \<open>\<^verbatim>\<open>s.split()\<close>: the maximal runs of characters that are not whitespace.\<close>

fun split_scan :: "string \<Rightarrow> string \<Rightarrow> string list" where
  "split_scan cur [] = (if cur = [] then [] else [cur])"
| "split_scan cur (x # xs) =
     (if isspace_char x then (if cur = [] then split_scan [] xs else cur # split_scan [] xs)
      else split_scan (cur @ [x]) xs)"

definition split :: "string \<Rightarrow> string list" where
  "split s = split_scan [] s"

text \<open>\<^verbatim>\<open>xs[i]\<close>: a negative index counts from the end; out of range raises.\<close>

definition index :: "'a list \<Rightarrow> int \<Rightarrow> error + 'a" where
  "index xs i =
     (let j = (if i < 0 then i + int (length xs) else i)
      in if j < 0 \<or> int (length xs) \<le> j then Inl IndexError else Inr (xs ! nat j))"

text \<open>
  \<^verbatim>\<open>int(s)\<close> in base ten: surrounding whitespace (its own set, without the separators
  \<open>0x1C\<close> to \<open>0x1F\<close>), one optional sign, decimal digits with single underscores between
  them, and at most 4300 digits (the default limit of Python 3.11); anything else raises
  \<^verbatim>\<open>ValueError\<close>.
\<close>

definition int_space_char :: "char \<Rightarrow> bool" where
  "int_space_char c \<longleftrightarrow> c \<in> set [CHR 0x09, CHR 0x0A, CHR 0x0B, CHR 0x0C, CHR 0x0D,
     CHR 0x20, CHR 0x85, CHR 0xA0]"

definition digit_val :: "char \<Rightarrow> nat" where
  "digit_val c = of_char c - 0x30"

fun digits_ok :: "string \<Rightarrow> bool" where
  "digits_ok [] = False"
| "digits_ok [c] = isdecimal_char c"
| "digits_ok (c # d # cs) =
     (isdecimal_char c \<and> (if d = CHR ''_'' then digits_ok cs else digits_ok (d # cs)))"

definition int_of_digits :: "string \<Rightarrow> nat" where
  "int_of_digits s = foldl (\<lambda>a c. 10 * a + digit_val c) 0 s"

definition py_int :: "string \<Rightarrow> error + int" where
  "py_int s =
     (let t = rev (dropWhile int_space_char (rev (dropWhile int_space_char s)));
          neg = (t \<noteq> [] \<and> hd t = CHR ''-'');
          body = (if t \<noteq> [] \<and> hd t \<in> set ''+-'' then tl t else t);
          digits = filter (\<lambda>c. c \<noteq> CHR ''_'') body
      in if digits_ok body \<and> length digits \<le> 4300
         then Inr (if neg then - int (int_of_digits digits) else int (int_of_digits digits))
         else Inl ValueError)"

section \<open>Category classifier\<close>

text \<open>The dictionary literal of \<^verbatim>\<open>get_partition_category\<close>, in insertion order.\<close>

definition categories :: "(string \<times> string) list" where
  "categories =
     [(''boot'', ''Bootloader''),
      (''recovery'', ''Recovery''),
      (''system'', ''Android System''),
      (''vendor'', ''Vendor Data''),
      (''userdata'', ''User Data''),
      (''cache'', ''Cache''),
      (''metadata'', ''Metadata''),
      (''modem'', ''Modem Firmware''),
      (''persist'', ''Persistent Storage''),
      (''dtbo'', ''Device Tree Blob''),
      (''vbmeta'', ''Verified Boot Metadata'')]"

text \<open>\<^verbatim>\<open>for key in categories: if key in partition_name.lower(): return categories[key]\<close>\<close>

fun category_loop :: "(string \<times> string) list \<Rightarrow> string \<Rightarrow> string" where
  "category_loop [] partition_name = ''Unknown''"
| "category_loop ((key, cat) # rest) partition_name =
     (if sublist key (lower partition_name) then cat else category_loop rest partition_name)"

definition get_partition_category :: "string \<Rightarrow> string" where
  "get_partition_category partition_name = category_loop categories partition_name"

section \<open>Partition enumerator\<close>

text \<open>What \<^verbatim>\<open>subprocess.run(..., capture_output=True, text=True)\<close> returns.\<close>

record completed =
  returncode :: int
  stdout :: string

text \<open>A partition descriptor: (device node, symlink label, category).\<close>

type_synonym descriptor = "string \<times> string \<times> string"

text \<open>
  The body of the \<^verbatim>\<open>if "->" in line\<close> branch: \<^verbatim>\<open>parts[-3]\<close>, then
  \<^verbatim>\<open>parts[-1].split("/")[-1]\<close>, then the category of the label.
\<close>

definition parse_line :: "string \<Rightarrow> error + descriptor" where
  "parse_line line =
     (let parts = split line
      in case index parts (- 3) of
           Inl e \<Rightarrow> Inl e
         | Inr partition_label \<Rightarrow>
             (case index parts (- 1) of
                Inl e \<Rightarrow> Inl e
              | Inr target \<Rightarrow>
                  (case index (split_on CHR ''/'' target) (- 1) of
                     Inl e \<Rightarrow> Inl e
                   | Inr partition_name \<Rightarrow>
                       Inr (partition_name, partition_label,
                            get_partition_category partition_label))))"

text \<open>The \<^verbatim>\<open>for line in result.stdout.split("\n")\<close> loop, appending to \<^verbatim>\<open>partitions\<close>.\<close>

fun named_loop :: "descriptor list \<Rightarrow> string list \<Rightarrow> error + descriptor list" where
  "named_loop partitions [] = Inr partitions"
| "named_loop partitions (line # lines) =
     (if sublist ''->'' line
      then (case parse_line line of
              Inl e \<Rightarrow> Inl e
            | Inr d \<Rightarrow> named_loop (partitions @ [d]) lines)
      else named_loop partitions lines)"

text \<open>The list comprehension over \<^verbatim>\<open>ls /dev/block\<close>.\<close>

definition generic_partitions :: "string \<Rightarrow> descriptor list" where
  "generic_partitions out =
     map (\<lambda>line. (strip line, strip line, ''Unknown''))
       (filter (sublist ''mmcblk0p'') (split_on CHR 0x0A out))"

text \<open>
  \<^verbatim>\<open>list_partitions\<close>, given the result of \<^verbatim>\<open>ls -l /dev/block/by-name\<close> and the result
  that \<^verbatim>\<open>ls /dev/block\<close> has when it is run.
\<close>

definition list_partitions :: "completed \<Rightarrow> completed \<Rightarrow> error + descriptor list" where
  "list_partitions by_name block =
     (case (if returncode by_name = 0
            then named_loop [] (split_on CHR 0x0A (stdout by_name))
            else Inr []) of
        Inl e \<Rightarrow> Inl e
      | Inr partitions \<Rightarrow>
          if partitions = [] then Inr (generic_partitions (stdout block))
          else Inr partitions)"

section \<open>Size query\<close>

definition get_partition_size :: "completed \<Rightarrow> error + nat option" where
  "get_partition_size result =
     (if returncode result = 0 \<and> isdigit (strip (stdout result))
      then (case py_int (strip (stdout result)) of
              Inl e \<Rightarrow> Inl e
            | Inr n \<Rightarrow> Inr (Some (nat n)))
      else Inr None)"

section \<open>Selectors\<close>

text \<open>
  The prompts read the lines the user types, one per \<^verbatim>\<open>input()\<close>; at the end of the
  input \<^verbatim>\<open>input()\<close> raises \<^verbatim>\<open>EOFError\<close>. The \<^verbatim>\<open>while True\<close> loop of
  \<^verbatim>\<open>choose_partition\<close> returns the accepted \<^verbatim>\<open>choice\<close>.
\<close>

fun choice_loop :: "nat \<Rightarrow> string list \<Rightarrow> error + string" where
  "choice_loop count [] = Inl EOFError"
| "choice_loop count (choice # inputs) =
     (if isdigit choice
      then (case py_int choice of
              Inl e \<Rightarrow> Inl e
            | Inr n \<Rightarrow> if 1 \<le> n \<and> n \<le> int count + 1 then Inr choice
                       else choice_loop count inputs)
      else choice_loop count inputs)"

definition choose_partition :: "descriptor list \<Rightarrow> string list \<Rightarrow> error + string" where
  "choose_partition partitions inputs =
     (case choice_loop (length partitions) inputs of
        Inl e \<Rightarrow> Inl e
      | Inr choice \<Rightarrow>
          (case py_int choice of
             Inl e \<Rightarrow> Inl e
           | Inr n \<Rightarrow>
               if n = int (length partitions) + 1 then Inr ''/dev/block/mmcblk0''
               else (case index partitions (n - 1) of
                       Inl e \<Rightarrow> Inl e
                     | Inr (partition_name, partition_label, category) \<Rightarrow>
                         Inr (if sublist ''by-name'' partition_name
                              then ''/dev/block/by-name/'' @ partition_name
                              else ''/dev/block/'' @ partition_name))))"



section \<open>Progress tool\<close>

definition detect_progress_tool :: "string \<Rightarrow> bool \<Rightarrow> string" where
  "detect_progress_tool system which_pv =
     (if system = ''Windows'' then ''tqdm''
      else if system = ''Linux'' then (if which_pv then ''pv'' else ''tqdm'')
      else ''tqdm'')"

section \<open>Image transfer\<close>

text \<open>
  The output pipe of the device-side \<^verbatim>\<open>dd\<close>: the bytes not yet read, and the sizes in
  which the pipe delivers them. \<^verbatim>\<open>read(n)\<close> returns at most \<open>n\<close> bytes, and no bytes only
  at the end of the stream.
\<close>

record pipe =
  pending :: "byte list"
  deliveries :: "nat list"

definition read :: "nat \<Rightarrow> pipe \<Rightarrow> byte list \<times> pipe" where
  "read n p =
     (let k = (case deliveries p of [] \<Rightarrow> n | d # ds \<Rightarrow> min n (max 1 d))
      in (take k (pending p),
          \<lparr>pending = drop k (pending p), deliveries = tl (deliveries p)\<rparr>))"

text \<open>\<^verbatim>\<open>check_root\<close>: \<open>None\<close> is a \<^verbatim>\<open>subprocess.run\<close> that raised.\<close>

definition check_root :: "completed option \<Rightarrow> bool" where
  "check_root r =
     (case r of
        None \<Rightarrow> False
      | Some result \<Rightarrow> returncode result = 0 \<and> strip (stdout result) \<noteq> [])"

text \<open>The state of \<^verbatim>\<open>tqdm(total=...)\<close>: the total and the counter \<^verbatim>\<open>n\<close>.\<close>

record meter =
  total :: "nat option"
  count :: nat

text \<open>
  The \<^verbatim>\<open>while True\<close> loop of both progress branches: the bytes written to the file so
  far and the counter of the progress meter.
\<close>

function transfer_loop :: "pipe \<Rightarrow> byte list \<Rightarrow> nat \<Rightarrow> byte list \<times> nat" where
  "transfer_loop p f n =
     (case read (1024 * 1024) p of
        (data, p') \<Rightarrow>
          if data = [] then (f, n)
          else transfer_loop p' (f @ data) (n + length data))"
  by pat_completeness auto
termination
proof (relation "measure (\<lambda>(p, f, n). length (pending p))", goal_cases)
  case 1
  show ?case by simp
next
  case 2
  then show ?case
    by (auto simp: read_def Let_def min_def max_def split: list.splits if_splits)
qed

text \<open>What a transfer leaves: the local file, and the progress meter if one was made.\<close>

record outcome =
  image :: "byte list"
  progress :: "meter option"

text \<open>The device as \<^verbatim>\<open>pull_image\<close> sees it: one result per command it runs.\<close>

record device =
  which_su :: "completed option"
  blockdev :: completed
  dd :: pipe

text \<open>\<^verbatim>\<open>if partition_size\<close>: neither \<^verbatim>\<open>None\<close> nor zero.\<close>

definition truthy :: "nat option \<Rightarrow> bool" where
  "truthy partition_size \<longleftrightarrow> partition_size \<noteq> None \<and> partition_size \<noteq> Some 0"

definition pull_image :: "device \<Rightarrow> string \<Rightarrow> error + outcome" where
  "pull_image dev progress_tool =
     (if \<not> check_root (which_su dev) then Inl (SystemExit 1)
      else (case get_partition_size (blockdev dev) of
              Inl e \<Rightarrow> Inl e
            | Inr partition_size \<Rightarrow>
                if progress_tool = ''pv'' \<and> truthy partition_size
                then (case transfer_loop (dd dev) [] 0 of
                        (f, n) \<Rightarrow> Inr \<lparr>image = f,
                          progress = Some \<lparr>total = partition_size, count = n\<rparr>\<rparr>)
                else if progress_tool = ''tqdm'' \<and> truthy partition_size
                then (case transfer_loop (dd dev) [] 0 of
                        (f, n) \<Rightarrow> Inr \<lparr>image = f,
                          progress = Some \<lparr>total = partition_size, count = n\<rparr>\<rparr>)
                else Inr \<lparr>image = pending (dd dev), progress = None\<rparr>))"

declare transfer_loop.simps [simp del]

section \<open>Example inputs\<close>

text \<open>A rooted device: \<open>size_out\<close> is what \<^verbatim>\<open>blockdev --getsize64\<close> prints with return
  code \<open>rc\<close>, and \<open>bytes\<close> is what \<^verbatim>\<open>dd\<close> sends, in the given deliveries.\<close>

definition rooted_device :: "int \<Rightarrow> string \<Rightarrow> byte list \<Rightarrow> nat list \<Rightarrow> device" where
  "rooted_device rc size_out bytes ds =
     \<lparr>which_su = Some \<lparr>returncode = 0, stdout = ''/system/xbin/su'' @ [CHR 0x0A]\<rparr>,
      blockdev = \<lparr>returncode = rc, stdout = size_out\<rparr>,
      dd = \<lparr>pending = bytes, deliveries = ds\<rparr>\<rparr>"

section \<open>The transfer loop copies the stream\<close>

lemma read_append: "read n p = (data, p') \<Longrightarrow> data @ pending p' = pending p"
  by (auto simp: read_def Let_def)

lemma read_empty_iff: "0 < n \<Longrightarrow> fst (read n p) = [] \<longleftrightarrow> pending p = []"
  by (auto simp: read_def Let_def split: list.splits)

lemma transfer_loop_copies:
  "transfer_loop p f n = (f @ pending p, n + length (pending p))"
proof (induction p f n rule: transfer_loop.induct)
  case (1 p f n)
  obtain data p' where r: "read (1024 * 1024) p = (data, p')"
    by (cases "read (1024 * 1024) p")
  show ?case
  proof (cases "data = []")
    case True
    with r have "pending p = []"
      using read_empty_iff [of "1024 * 1024" p] by simp
    with r True show ?thesis
      by (subst transfer_loop.simps) simp
  next
    case False
    have "transfer_loop p f n = transfer_loop p' (f @ data) (n + length data)"
      using r False by (subst transfer_loop.simps) simp
    also have "\<dots> = ((f @ data) @ pending p', (n + length data) + length (pending p'))"
      using "1.IH" [OF r [symmetric] False] .
    also have "\<dots> = (f @ pending p, n + length (pending p))"
      using read_append [OF r, symmetric] by simp
    finally show ?thesis .
  qed
qed

text \<open>
  C1 (as amended). When the device is rooted and the size query returns a size that is
  not zero, \<^verbatim>\<open>pull_image\<close>, with either tool that \<^verbatim>\<open>detect_progress_tool\<close> selects,
  writes a file that is the source stream, byte for byte and so of its length \<open>N\<close>,
  whatever the sizes in which the pipe delivers it, and the final value of the progress
  counter is \<open>N\<close>.
\<close>

theorem pull_image_known_size:
  assumes "check_root (which_su dev)"
    and "get_partition_size (blockdev dev) = Inr (Some sz)"
    and "sz \<noteq> 0"
  shows "pull_image dev (detect_progress_tool system which_pv) =
           Inr \<lparr>image = pending (dd dev),
                progress = Some \<lparr>total = Some sz, count = length (pending (dd dev))\<rparr>\<rparr>"
  using assms
  by (simp add: pull_image_def detect_progress_tool_def truthy_def transfer_loop_copies)

theorem pull_image_known_size_witness:
  "check_root (which_su (rooted_device 0 ''5'' [1, 2, 3, 4, 5] [2, 0, 7])) \<and>
   get_partition_size (blockdev (rooted_device 0 ''5'' [1, 2, 3, 4, 5] [2, 0, 7])) = Inr (Some 5) \<and>
   (5 :: nat) \<noteq> 0 \<and>
   pull_image (rooted_device 0 ''5'' [1, 2, 3, 4, 5] [2, 0, 7]) (detect_progress_tool ''Linux'' True) =
     Inr \<lparr>image = [1, 2, 3, 4, 5], progress = Some \<lparr>total = Some 5, count = 5\<rparr>\<rparr>"
proof -
  have r: "check_root (which_su (rooted_device 0 ''5'' [1, 2, 3, 4, 5] [2, 0, 7]))"
    by code_simp
  have s: "get_partition_size (blockdev (rooted_device 0 ''5'' [1, 2, 3, 4, 5] [2, 0, 7]))
             = Inr (Some 5)"
    by code_simp
  have n: "(5 :: nat) \<noteq> 0"
    by simp
  show ?thesis
    using pull_image_known_size [OF r s n, of "''Linux''" True] r s
    by (simp add: rooted_device_def)
qed

text \<open>
  C1 as stated fails when the size that is known is zero: \<^verbatim>\<open>if ... and partition_size\<close>
  is then false, \<^verbatim>\<open>dd\<close> writes into the file directly, and there is no progress counter.
\<close>

theorem pull_image_known_size_counterexample:
  "get_partition_size (blockdev (rooted_device 0 ''0'' [1, 2, 3] [])) = Inr (Some 0) \<and>
   pull_image (rooted_device 0 ''0'' [1, 2, 3] []) ''tqdm'' =
     Inr \<lparr>image = [1, 2, 3], progress = None\<rparr>"
  by code_simp

text \<open>
  C6. The transfer does not depend on the tool: \<^verbatim>\<open>"pv"\<close> and \<^verbatim>\<open>"tqdm"\<close>, and any two
  results of \<^verbatim>\<open>detect_progress_tool\<close>, give the same file and the same progress meter
  (or the same error), for every device, stream and size.
\<close>

theorem pull_image_tool_independent:
  "pull_image dev ''pv'' = pull_image dev ''tqdm'' \<and>
   pull_image dev (detect_progress_tool system1 pv1) =
     pull_image dev (detect_progress_tool system2 pv2)"
  by (simp add: pull_image_def detect_progress_tool_def split: sum.splits)

text \<open>
  C4 (as amended). When the device is rooted and the size query returns \<^verbatim>\<open>None\<close>, the
  transfer completes and the file is the source stream, byte for byte; no progress meter
  is made.
\<close>

theorem pull_image_unknown_size:
  assumes "check_root (which_su dev)"
    and "get_partition_size (blockdev dev) = Inr None"
  shows "pull_image dev progress_tool = Inr \<lparr>image = pending (dd dev), progress = None\<rparr>"
  using assms by (simp add: pull_image_def truthy_def)

theorem pull_image_unknown_size_witness:
  "check_root (which_su (rooted_device 1 ''blockdev: not found'' [7, 8, 9] [1])) \<and>
   get_partition_size (blockdev (rooted_device 1 ''blockdev: not found'' [7, 8, 9] [1])) = Inr None \<and>
   pull_image (rooted_device 1 ''blockdev: not found'' [7, 8, 9] [1]) ''pv'' =
     Inr \<lparr>image = [7, 8, 9], progress = None\<rparr>"
proof -
  have r: "check_root (which_su (rooted_device 1 ''blockdev: not found'' [7, 8, 9] [1]))"
    by code_simp
  have s: "get_partition_size (blockdev (rooted_device 1 ''blockdev: not found'' [7, 8, 9] [1]))
             = Inr None"
    by code_simp
  show ?thesis
    using pull_image_unknown_size [OF r s, of "''pv''"] r s
    by (simp add: rooted_device_def)
qed

text \<open>
  C4 as stated fails: with an unknown size the code shows no progress display at all, not
  an indeterminate one (a meter whose total is \<^verbatim>\<open>None\<close>).
\<close>

theorem pull_image_unknown_size_counterexample:
  "get_partition_size (blockdev (rooted_device 0 ''unknown'' [7, 8, 9] [])) = Inr None \<and>
   pull_image (rooted_device 0 ''unknown'' [7, 8, 9] []) ''tqdm'' =
     Inr \<lparr>image = [7, 8, 9], progress = None\<rparr>"
  by code_simp

section \<open>The classifier returns the first fragment's category\<close>

lemma category_loop_first:
  "(\<forall>(k, c) \<in> set before. \<not> sublist k (lower name)) \<Longrightarrow> sublist fragment (lower name) \<Longrightarrow>
   category_loop (before @ (fragment, category) # after) name = category"
  by (induction before) auto

text \<open>
  C2 (as amended). For every label whose lower-cased form contains a known fragment, in
  whatever case and with whatever characters around it, \<^verbatim>\<open>get_partition_category\<close> returns
  that fragment's category when no fragment that stands earlier in the table occurs in
  the lower-cased label too: the first match wins.
\<close>

theorem get_partition_category_first_match:
  assumes "categories = before @ (fragment, category) # after"
    and "sublist fragment (lower label)"
    and "\<forall>(k, c) \<in> set before. \<not> sublist k (lower label)"
  shows "get_partition_category label = category"
  unfolding get_partition_category_def assms(1)
  using assms(2,3) by (rule category_loop_first [rotated])

theorem get_partition_category_first_match_witness:
  "categories = [(''boot'', ''Bootloader''), (''recovery'', ''Recovery'')] @
      (''system'', ''Android System'') # drop 3 categories \<and>
   sublist ''system'' (lower ''VBMeta_System'') \<and>
   \<not> sublist ''boot'' (lower ''VBMeta_System'') \<and>
   \<not> sublist ''recovery'' (lower ''VBMeta_System'') \<and>
   get_partition_category ''VBMeta_System'' = ''Android System''"
proof -
  have t: "categories = [(''boot'', ''Bootloader''), (''recovery'', ''Recovery'')] @
      (''system'', ''Android System'') # drop 3 categories"
    by (simp add: categories_def)
  have s: "sublist ''system'' (lower ''VBMeta_System'')"
    by code_simp
  have b: "\<forall>(k, c) \<in> set [(''boot'', ''Bootloader''), (''recovery'', ''Recovery'')].
      \<not> sublist k (lower ''VBMeta_System'')"
    by code_simp
  show ?thesis
    using get_partition_category_first_match [OF t s b] t s b by simp
qed

text \<open>
  C2 as stated fails: the label \<^verbatim>\<open>vbmeta_system\<close> contains the fragment \<^verbatim>\<open>vbmeta\<close>, whose
  category is \<^verbatim>\<open>Verified Boot Metadata\<close>, and is classified by the earlier fragment
  \<^verbatim>\<open>system\<close>.
\<close>

theorem get_partition_category_counterexample:
  "(''vbmeta'', ''Verified Boot Metadata'') \<in> set categories \<and>
   sublist ''vbmeta'' (lower ''vbmeta_system'') \<and>
   get_partition_category ''vbmeta_system'' = ''Android System''"
  by code_simp

section \<open>The named enumerator\<close>

lemma index_last: "xs \<noteq> [] \<Longrightarrow> index xs (- 1) = Inr (last xs)"
  by (simp add: index_def Let_def last_conv_nth nat_diff_distrib')

lemma index_third_last:
  "index xs (- 3) = (if 3 \<le> length xs then Inr (xs ! (length xs - 3)) else Inl IndexError)"
  by (auto simp: index_def Let_def nat_diff_distrib' intro: arg_cong [where f = "nth xs"])

lemma split_on_not_Nil: "split_on c s \<noteq> []"
  by (induction s) (auto split: list.splits)

lemma split_on_no_sep: "w \<in> set (split_on c s) \<Longrightarrow> c \<notin> set w"
  by (induction s arbitrary: w) (auto split: if_splits list.splits)

lemma parse_line_ok:
  assumes "3 \<le> length (split line)"
  shows "parse_line line =
           Inr (last (split_on CHR ''/'' (last (split line))),
                split line ! (length (split line) - 3),
                get_partition_category (split line ! (length (split line) - 3)))"
proof -
  from assms have "split line \<noteq> []" by auto
  with assms show ?thesis
    by (simp add: parse_line_def Let_def index_third_last index_last split_on_not_Nil)
qed

lemma parse_line_short: "length (split line) < 3 \<Longrightarrow> parse_line line = Inl IndexError"
  by (simp add: parse_line_def Let_def index_third_last)

text \<open>
  C9. The parse of a line returns a descriptor, made of the third token from the end and
  of the last component of the last token, exactly when the line has at least three
  tokens; with fewer tokens \<^verbatim>\<open>parts[-3]\<close> raises \<^verbatim>\<open>IndexError\<close>.
\<close>

theorem parse_line_total_iff:
  "parse_line line =
     (if 3 \<le> length (split line)
      then Inr (last (split_on CHR ''/'' (last (split line))),
                split line ! (length (split line) - 3),
                get_partition_category (split line ! (length (split line) - 3)))
      else Inl IndexError)"
  by (simp add: parse_line_ok parse_line_short)

lemma named_loop_no_symlink:
  "\<forall>l \<in> set lines. \<not> sublist ''->'' l \<Longrightarrow> named_loop partitions lines = Inr partitions"
  by (induction lines arbitrary: partitions) auto

lemma named_loop_parsed:
  "\<forall>l \<in> set lines. sublist ''->'' l \<longrightarrow> 3 \<le> length (split l) \<Longrightarrow>
   \<exists>ds. named_loop partitions lines = Inr (partitions @ ds) \<and>
        map parse_line (filter (sublist ''->'') lines) = map Inr ds"
proof (induction lines arbitrary: partitions)
  case Nil
  then show ?case by simp
next
  case (Cons l lines)
  show ?case
  proof (cases "sublist ''->'' l")
    case False
    with Cons show ?thesis by simp
  next
    case True
    with Cons.prems obtain d where d: "parse_line l = Inr d"
      by (auto simp: parse_line_ok)
    from Cons.prems have "\<forall>l \<in> set lines. sublist ''->'' l \<longrightarrow> 3 \<le> length (split l)"
      by simp
    from Cons.IH [OF this, of "partitions @ [d]"]
    obtain ds where ds: "named_loop (partitions @ [d]) lines = Inr ((partitions @ [d]) @ ds)"
      "map parse_line (filter (sublist ''->'') lines) = map Inr ds"
      by blast
    with True d have "named_loop partitions (l # lines) = Inr (partitions @ (d # ds)) \<and>
        map parse_line (filter (sublist ''->'') (l # lines)) = map Inr (d # ds)"
      by simp
    then show ?thesis by blast
  qed
qed

text \<open>
  C3 (as amended). When the named-block listing succeeded and has \<open>N \<ge> 1\<close> lines with the
  symlink marker, each of at least three tokens, and any number of other lines,
  \<^verbatim>\<open>list_partitions\<close> returns exactly \<open>N\<close> descriptors, and they are the parses of the
  symlink lines in the order of the input.
\<close>

theorem list_partitions_named:
  assumes "returncode by_name = 0"
    and "filter (sublist ''->'') (split_on CHR 0x0A (stdout by_name)) \<noteq> []"
    and "\<forall>l \<in> set (filter (sublist ''->'') (split_on CHR 0x0A (stdout by_name))).
           3 \<le> length (split l)"
  shows "\<exists>ds. list_partitions by_name block = Inr ds \<and>
           length ds = length (filter (sublist ''->'') (split_on CHR 0x0A (stdout by_name))) \<and>
           map Inr ds = map parse_line (filter (sublist ''->'') (split_on CHR 0x0A (stdout by_name)))"
proof -
  let ?lines = "split_on CHR 0x0A (stdout by_name)"
  from assms(3) have "\<forall>l \<in> set ?lines. sublist ''->'' l \<longrightarrow> 3 \<le> length (split l)"
    by simp
  from named_loop_parsed [OF this, of "[]"]
  obtain ds where ds: "named_loop [] ?lines = Inr ds"
    "map parse_line (filter (sublist ''->'') ?lines) = map Inr ds"
    by auto
  from ds(2) have len: "length ds = length (filter (sublist ''->'') ?lines)"
    by (metis length_map)
  with assms(2) have "ds \<noteq> []" by auto
  with ds(1) assms(1) have "list_partitions by_name block = Inr ds"
    by (simp add: list_partitions_def)
  with len ds(2) show ?thesis by simp
qed

theorem list_partitions_named_witness:
  "returncode \<lparr>returncode = 0, stdout = ''total 0'' @ [CHR 0x0A] @
      ''lrwxrwxrwx 1 root root 21 2021-01-01 00:00 boot_a -> /dev/block/mmcblk0p21'' @ [CHR 0x0A] @
      ''drwxr-xr-x 2 root root 40 2021-01-01 00:00 lost'' @ [CHR 0x0A] @
      ''lrwxrwxrwx 1 root root 21 2021-01-01 00:00 userdata -> /dev/block/mmcblk0p9'' @
      [CHR 0x0A]\<rparr> = 0 \<and>
   filter (sublist ''->'') (split_on CHR 0x0A (stdout \<lparr>returncode = 0, stdout = ''total 0'' @ [CHR 0x0A] @
      ''lrwxrwxrwx 1 root root 21 2021-01-01 00:00 boot_a -> /dev/block/mmcblk0p21'' @ [CHR 0x0A] @
      ''drwxr-xr-x 2 root root 40 2021-01-01 00:00 lost'' @ [CHR 0x0A] @
      ''lrwxrwxrwx 1 root root 21 2021-01-01 00:00 userdata -> /dev/block/mmcblk0p9'' @
      [CHR 0x0A]\<rparr>)) \<noteq> [] \<and>
   list_all (\<lambda>l. 3 \<le> length (split l))
     (filter (sublist ''->'') (split_on CHR 0x0A (stdout \<lparr>returncode = 0, stdout = ''total 0'' @ [CHR 0x0A] @
      ''lrwxrwxrwx 1 root root 21 2021-01-01 00:00 boot_a -> /dev/block/mmcblk0p21'' @ [CHR 0x0A] @
      ''drwxr-xr-x 2 root root 40 2021-01-01 00:00 lost'' @ [CHR 0x0A] @
      ''lrwxrwxrwx 1 root root 21 2021-01-01 00:00 userdata -> /dev/block/mmcblk0p9'' @
      [CHR 0x0A]\<rparr>))) \<and>
   list_partitions \<lparr>returncode = 0, stdout = ''total 0'' @ [CHR 0x0A] @
      ''lrwxrwxrwx 1 root root 21 2021-01-01 00:00 boot_a -> /dev/block/mmcblk0p21'' @ [CHR 0x0A] @
      ''drwxr-xr-x 2 root root 40 2021-01-01 00:00 lost'' @ [CHR 0x0A] @
      ''lrwxrwxrwx 1 root root 21 2021-01-01 00:00 userdata -> /dev/block/mmcblk0p9'' @
      [CHR 0x0A]\<rparr> \<lparr>returncode = 0, stdout = ''mmcblk0p1''\<rparr> =
     Inr [(''mmcblk0p21'', ''boot_a'', ''Bootloader''), (''mmcblk0p9'', ''userdata'', ''User Data'')]"
proof -
  let ?r = "\<lparr>returncode = 0, stdout = ''total 0'' @ [CHR 0x0A] @
      ''lrwxrwxrwx 1 root root 21 2021-01-01 00:00 boot_a -> /dev/block/mmcblk0p21'' @ [CHR 0x0A] @
      ''drwxr-xr-x 2 root root 40 2021-01-01 00:00 lost'' @ [CHR 0x0A] @
      ''lrwxrwxrwx 1 root root 21 2021-01-01 00:00 userdata -> /dev/block/mmcblk0p9'' @
      [CHR 0x0A]\<rparr>"
  have a: "returncode ?r = 0"
    by simp
  have b: "filter (sublist ''->'') (split_on CHR 0x0A (stdout ?r)) \<noteq> []"
    by code_simp
  have c: "\<forall>l \<in> set (filter (sublist ''->'') (split_on CHR 0x0A (stdout ?r))).
             3 \<le> length (split l)"
    by code_simp
  have d: "map parse_line (filter (sublist ''->'') (split_on CHR 0x0A (stdout ?r))) =
             map Inr [(''mmcblk0p21'', ''boot_a'', ''Bootloader''),
                      (''mmcblk0p9'', ''userdata'', ''User Data'')]"
    by code_simp
  from list_partitions_named [OF a b c, of "\<lparr>returncode = 0, stdout = ''mmcblk0p1''\<rparr>"]
  obtain ds where ds: "list_partitions ?r \<lparr>returncode = 0, stdout = ''mmcblk0p1''\<rparr> = Inr ds"
    "map Inr ds = map parse_line (filter (sublist ''->'') (split_on CHR 0x0A (stdout ?r)))"
    by blast
  from ds(2) d have "map (Inr :: descriptor \<Rightarrow> error + descriptor) ds =
      map Inr [(''mmcblk0p21'', ''boot_a'', ''Bootloader''),
               (''mmcblk0p9'', ''userdata'', ''User Data'')]"
    by simp
  then have "ds = [(''mmcblk0p21'', ''boot_a'', ''Bootloader''),
                   (''mmcblk0p9'', ''userdata'', ''User Data'')]"
    by (auto simp: map_eq_Cons_conv)
  with ds(1) a b c show ?thesis
    by (simp add: list_all_iff)
qed

text \<open>
  C3 as stated fails when there is no symlink line: \<open>N = 0\<close>, and the fallback returns the
  two generic entries of the raw listing.
\<close>

theorem list_partitions_named_counterexample:
  "filter (sublist ''->'') (split_on CHR 0x0A ''total 0'') = [] \<and>
   list_partitions \<lparr>returncode = 0, stdout = ''total 0''\<rparr>
     \<lparr>returncode = 0, stdout = ''mmcblk0'' @ [CHR 0x0A] @ ''mmcblk0p1'' @ [CHR 0x0A] @ ''mmcblk0p2''\<rparr> =
     Inr [(''mmcblk0p1'', ''mmcblk0p1'', ''Unknown''), (''mmcblk0p2'', ''mmcblk0p2'', ''Unknown'')]"
  by code_simp

section \<open>The fallback enumerator\<close>

text \<open>
  C7. When the named-block listing gives no descriptor (the command failed, or no line
  has the symlink marker), \<^verbatim>\<open>list_partitions\<close> returns, for every raw listing, exactly
  its lines that contain \<^verbatim>\<open>mmcblk0p\<close>, in the order of the listing, each stripped and used
  as node name and as label, with the category \<^verbatim>\<open>Unknown\<close>.
\<close>

theorem list_partitions_fallback:
  assumes "returncode by_name \<noteq> 0 \<or>
           (\<forall>l \<in> set (split_on CHR 0x0A (stdout by_name)). \<not> sublist ''->'' l)"
  shows "list_partitions by_name block =
           Inr (map (\<lambda>l. (strip l, strip l, ''Unknown''))
                  (filter (sublist ''mmcblk0p'') (split_on CHR 0x0A (stdout block))))"
  using assms
  by (auto simp: list_partitions_def generic_partitions_def named_loop_no_symlink)

theorem list_partitions_fallback_witness:
  "list_all (\<lambda>l. \<not> sublist ''->'' l)
     (split_on CHR 0x0A (stdout \<lparr>returncode = 0, stdout = ''total 0'' @ [CHR 0x0A]\<rparr>)) \<and>
   list_partitions \<lparr>returncode = 0, stdout = ''total 0'' @ [CHR 0x0A]\<rparr>
     \<lparr>returncode = 0, stdout = ''loop0'' @ [CHR 0x0A] @ ''mmcblk0'' @ [CHR 0x0A] @
        ''mmcblk0p2 '' @ [CHR 0x0A] @ ''mmcblk0p1'' @ [CHR 0x0A]\<rparr> =
     Inr [(''mmcblk0p2'', ''mmcblk0p2'', ''Unknown''), (''mmcblk0p1'', ''mmcblk0p1'', ''Unknown'')]"
proof -
  have h: "returncode \<lparr>returncode = 0, stdout = ''total 0'' @ [CHR 0x0A]\<rparr> \<noteq> 0 \<or>
    (\<forall>l \<in> set (split_on CHR 0x0A (stdout \<lparr>returncode = 0, stdout = ''total 0'' @ [CHR 0x0A]\<rparr>)).
       \<not> sublist ''->'' l)"
    by code_simp
  have e: "map (\<lambda>l. (strip l, strip l, ''Unknown''))
             (filter (sublist ''mmcblk0p'') (split_on CHR 0x0A
                (''loop0'' @ [CHR 0x0A] @ ''mmcblk0'' @ [CHR 0x0A] @
                 ''mmcblk0p2 '' @ [CHR 0x0A] @ ''mmcblk0p1'' @ [CHR 0x0A]))) =
           [(''mmcblk0p2'', ''mmcblk0p2'', ''Unknown''), (''mmcblk0p1'', ''mmcblk0p1'', ''Unknown'')]"
    by code_simp
  show ?thesis
    using list_partitions_fallback [OF h, of "\<lparr>returncode = 0,
        stdout = ''loop0'' @ [CHR 0x0A] @ ''mmcblk0'' @ [CHR 0x0A] @
        ''mmcblk0p2 '' @ [CHR 0x0A] @ ''mmcblk0p1'' @ [CHR 0x0A]\<rparr>"] h e
    by (simp add: list_all_iff)
qed

section \<open>The partition selector\<close>

lemma choice_loop_accepts:
  "choice_loop c inputs = Inr choice \<Longrightarrow> \<exists>n. py_int choice = Inr n \<and> 1 \<le> n \<and> n \<le> int c + 1"
  by (induction inputs) (auto split: if_splits sum.splits)

lemma choice_loop_not_digits:
  "\<not> isdigit choice \<Longrightarrow> choice_loop c (choice # inputs) = choice_loop c inputs"
  by simp

lemma choice_loop_out_of_range:
  "py_int choice = Inr n \<Longrightarrow> n < 1 \<or> int c + 1 < n \<Longrightarrow>
   choice_loop c (choice # inputs) = choice_loop c inputs"
  by auto

lemma choose_partition_full_disk:
  "isdigit choice \<Longrightarrow> py_int choice = Inr (int (length partitions) + 1) \<Longrightarrow>
   choose_partition partitions (choice # inputs) = Inr ''/dev/block/mmcblk0''"
  by (simp add: choose_partition_def)

text \<open>
  C5. The selector reprompts on an entry that \<^verbatim>\<open>isdigit\<close> refuses and on an integer out
  of range, and takes the count plus one as the full disk (the three lemmas above). On
  the entry made of the superscript two, which \<^verbatim>\<open>isdigit\<close> accepts and \<^verbatim>\<open>int\<close> does not
  parse, the selector ends with \<^verbatim>\<open>ValueError\<close> instead of asking again.
\<close>

theorem choose_partition_superscript_digit:
  "isdigit [CHR 0xB2] \<and> py_int [CHR 0xB2] = Inl ValueError \<and>
   choose_partition [(''mmcblk0p1'', ''boot'', ''Bootloader'')] [[CHR 0xB2], ''2''] = Inl ValueError"
  by code_simp

text \<open>
  C10 (as amended). For every accepted choice \<open>n\<close> of at most the partition count,
  \<^verbatim>\<open>choose_partition\<close> returns \<^verbatim>\<open>/dev/block/\<close> followed by the node name of descriptor \<open>n\<close>
  when that name does not contain \<^verbatim>\<open>by-name\<close>, and \<^verbatim>\<open>/dev/block/by-name/\<close> followed by it
  otherwise; the node name of a descriptor of the named enumerator is the last component
  of the symlink's target, so it contains no \<^verbatim>\<open>/\<close>.
\<close>

theorem choose_partition_named:
  "(choice_loop (length partitions) inputs = Inr choice \<and> py_int choice = Inr n \<and>
      n \<le> int (length partitions) \<longrightarrow>
    choose_partition partitions inputs =
      Inr ((if sublist ''by-name'' (fst (partitions ! nat (n - 1)))
            then ''/dev/block/by-name/'' else ''/dev/block/'') @ fst (partitions ! nat (n - 1)))) \<and>
   (parse_line line = Inr (name, label, category) \<longrightarrow> CHR ''/'' \<notin> set name)"
proof (intro conjI impI)
  assume a: "choice_loop (length partitions) inputs = Inr choice \<and> py_int choice = Inr n \<and>
      n \<le> int (length partitions)"
  with choice_loop_accepts [of "length partitions" inputs choice] have n: "1 \<le> n" by auto
  with a have "index partitions (n - 1) = Inr (partitions ! nat (n - 1))"
    by (auto simp: index_def Let_def)
  with a n show "choose_partition partitions inputs =
      Inr ((if sublist ''by-name'' (fst (partitions ! nat (n - 1)))
            then ''/dev/block/by-name/'' else ''/dev/block/'') @ fst (partitions ! nat (n - 1)))"
    by (cases "partitions ! nat (n - 1)") (auto simp: choose_partition_def)
next
  assume "parse_line line = Inr (name, label, category)"
  then have "name = last (split_on CHR ''/'' (last (split line)))"
    by (cases "3 \<le> length (split line)") (simp_all add: parse_line_ok parse_line_short)
  then have "name \<in> set (split_on CHR ''/'' (last (split line)))"
    by (simp add: split_on_not_Nil)
  then show "CHR ''/'' \<notin> set name"
    by (rule split_on_no_sep)
qed

theorem choose_partition_named_witness:
  "(choice_loop (length [(''mmcblk0p21'', ''boot_a'', ''Bootloader''),
                         (''mmcblk0p9'', ''userdata'', ''User Data'')])
      [''abc'', ''7'', ''2'', ''1''] = Inr ''2'' \<and>
    py_int ''2'' = Inr 2 \<and>
    2 \<le> int (length [(''mmcblk0p21'', ''boot_a'', ''Bootloader''),
                       (''mmcblk0p9'', ''userdata'', ''User Data'')])) \<and>
   choose_partition [(''mmcblk0p21'', ''boot_a'', ''Bootloader''),
                     (''mmcblk0p9'', ''userdata'', ''User Data'')]
      [''abc'', ''7'', ''2'', ''1''] = Inr ''/dev/block/mmcblk0p9'' \<and>
   parse_line ''lrwxrwxrwx 1 root root 21 2021-01-01 00:00 userdata -> /dev/block/mmcblk0p9'' =
      Inr (''mmcblk0p9'', ''userdata'', ''User Data'') \<and>
   CHR ''/'' \<notin> set ''mmcblk0p9''"
proof -
  have h: "choice_loop (length [(''mmcblk0p21'', ''boot_a'', ''Bootloader''),
                         (''mmcblk0p9'', ''userdata'', ''User Data'')])
      [''abc'', ''7'', ''2'', ''1''] = Inr ''2'' \<and>
    py_int ''2'' = Inr 2 \<and>
    2 \<le> int (length [(''mmcblk0p21'', ''boot_a'', ''Bootloader''),
                       (''mmcblk0p9'', ''userdata'', ''User Data'')])"
    by code_simp
  have p: "parse_line ''lrwxrwxrwx 1 root root 21 2021-01-01 00:00 userdata -> /dev/block/mmcblk0p9'' =
      Inr (''mmcblk0p9'', ''userdata'', ''User Data'')"
    by code_simp
  have s: "\<not> sublist ''by-name'' ''mmcblk0p9''"
    by code_simp
  show ?thesis
    using choose_partition_named [of "[(''mmcblk0p21'', ''boot_a'', ''Bootloader''),
        (''mmcblk0p9'', ''userdata'', ''User Data'')]" "[''abc'', ''7'', ''2'', ''1'']" "''2''" 2
        "''lrwxrwxrwx 1 root root 21 2021-01-01 00:00 userdata -> /dev/block/mmcblk0p9''"
        "''mmcblk0p9''" "''userdata''" "''User Data''"] h p s
    by simp
qed

text \<open>
  C10 as stated fails in its second part: a symlink whose target's last component
  contains \<^verbatim>\<open>by-name\<close> gives a descriptor of the named enumerator for which the
  \<^verbatim>\<open>/dev/block/by-name/\<close> branch is taken.
\<close>

theorem choose_partition_named_counterexample:
  "list_partitions
     \<lparr>returncode = 0,
      stdout = ''lrwxrwxrwx 1 root root 21 2021-01-01 00:00 misc -> /dev/block/by-name_misc''\<rparr>
     \<lparr>returncode = 0, stdout = ''''\<rparr> = Inr [(''by-name_misc'', ''misc'', ''Unknown'')] \<and>
   choose_partition [(''by-name_misc'', ''misc'', ''Unknown'')] [''1''] =
     Inr ''/dev/block/by-name/by-name_misc''"
  by code_simp

section \<open>The destination selector\<close>




end
